theory Spec2Isabelle
  imports Main
begin

section \<open>The authz package: a registry of authorization policies\<close>

text \<open>
  The package \<^verbatim>\<open>authz\<close> (file \<^verbatim>\<open>authorizer.go\<close>) consists of the function type
  \<^verbatim>\<open>Effector\<close>, the struct \<^verbatim>\<open>Authorizer\<close> with its single field \<^verbatim>\<open>Policies\<close>, the
  constructor \<^verbatim>\<open>NewAuthorizer\<close> and the two methods \<^verbatim>\<open>AddPolicy\<close> and \<^verbatim>\<open>Enforce\<close>.

  A Go map is a reference: the struct holds a pointer to a map object, and
  \<^verbatim>\<open>a.Policies[action] = effect\<close> writes to that object, not to the struct. The model
  therefore has a heap of map objects, and every operation takes the heap and returns
  the heap it leaves behind, also when it panics (a panic can be recovered, and the
  state it leaves is observable).
\<close>

subsection \<open>Data\<close>

text \<open>
  \<^verbatim>\<open>type Effector[T any, T2 any] func(T, T2) bool\<close>

  A value of a Go function type is either \<^verbatim>\<open>nil\<close> or a function. The function itself is
  a total HOL function, the decision of a pure, deterministic predicate, as the
  registry's contract asks. What an effector's code does besides (a write to the heap, a
  panic) is not part of this value; \<open>Enforce_running\<close> below takes it as a parameter.
\<close>

datatype ('s, 't) Effector = NilFunc | Func "'s \<Rightarrow> 't \<Rightarrow> bool"

text \<open>The contents of a map object of type \<^verbatim>\<open>map[string]Effector[T, T2]\<close>.\<close>

type_synonym ('s, 't) policies = "string \<rightharpoonup> ('s, 't) Effector"

text \<open>
  The heap: the map object at every address, and the next address to allocate.
  A value of a map type is \<^verbatim>\<open>nil\<close> (\<open>None\<close>) or the address of a map object.
\<close>

type_synonym mapref = "nat option"

record ('s, 't) heap =
  objs :: "nat \<Rightarrow> ('s, 't) policies"
  nxt :: nat

text \<open>
  \<^verbatim>\<open>type Authorizer[T any, T2 any] struct { Policies map[string]Effector[T, T2] }\<close>

  The methods take a pointer to the struct and only read its field, and no function of
  the package assigns to the field after construction. So a registry is the struct
  value: two registries are the same one exactly when they refer to the same map object
  (or are both without one, as the zero value of the struct is). A nil receiver is no
  registry and is not modelled.
\<close>

record Authorizer =
  Policies :: mapref

text \<open>
  The panics: \<^verbatim>\<open>panic(msg)\<close> with the message of the source, and the two run-time panics
  of Go that the methods can reach (an assignment to an entry of a nil map, a call of a
  nil function value).
\<close>

datatype panic = Panic string | NilMapAssignment | NilFuncCall

text \<open>The heap a program starts with: nothing allocated.\<close>

definition init_heap :: "('s, 't) heap" where
  "init_heap = \<lparr>objs = (\<lambda>_. Map.empty), nxt = 0\<rparr>"

subsection \<open>Map expressions of Go\<close>

text \<open>
  \<^verbatim>\<open>v, ok := m[k]\<close>: \<open>None\<close> stands for \<^verbatim>\<open>ok == false\<close>. Reading a nil map finds nothing.
\<close>

fun comma_ok :: "mapref \<Rightarrow> string \<Rightarrow> ('s, 't) heap \<Rightarrow> ('s, 't) Effector option" where
  "comma_ok None k h = None"
| "comma_ok (Some l) k h = objs h l k"

text \<open>\<^verbatim>\<open>m[k]\<close>: the zero value of the element type, \<^verbatim>\<open>nil\<close>, when the key is absent.\<close>

definition index :: "mapref \<Rightarrow> string \<Rightarrow> ('s, 't) heap \<Rightarrow> ('s, 't) Effector" where
  "index m k h = (case comma_ok m k h of None \<Rightarrow> NilFunc | Some v \<Rightarrow> v)"

text \<open>\<^verbatim>\<open>m[k] = v\<close>: a run-time panic on a nil map, an update of the map object otherwise.\<close>

fun assign ::
  "mapref \<Rightarrow> string \<Rightarrow> ('s, 't) Effector \<Rightarrow> ('s, 't) heap \<Rightarrow> (panic + unit) \<times> ('s, 't) heap"
where
  "assign None k v h = (Inl NilMapAssignment, h)"
| "assign (Some l) k v h = (Inr (), h\<lparr>objs := (objs h)(l := (objs h l)(k \<mapsto> v))\<rparr>)"

text \<open>\<^verbatim>\<open>fn(subject, resource)\<close>: a run-time panic when \<^verbatim>\<open>fn\<close> is nil.\<close>

fun call ::
  "('s, 't) Effector \<Rightarrow> 's \<Rightarrow> 't \<Rightarrow> ('s, 't) heap \<Rightarrow> (panic + bool) \<times> ('s, 't) heap"
where
  "call NilFunc subject resource h = (Inl NilFuncCall, h)"
| "call (Func f) subject resource h = (Inr (f subject resource), h)"

subsection \<open>The operations\<close>

text \<open>
  \<^verbatim>\<open>
  func NewAuthorizer[T any, T2 any]() *Authorizer[T, T2] {
      return &Authorizer[T, T2]{ Policies: map[string]Effector[T, T2]{} }
  }
  \<close>
  The map literal allocates a new, empty map object.
\<close>

definition NewAuthorizer :: "('s, 't) heap \<Rightarrow> Authorizer \<times> ('s, 't) heap" where
  "NewAuthorizer h =
     (\<lparr>Policies = Some (nxt h)\<rparr>,
      h\<lparr>objs := (objs h)(nxt h := Map.empty), nxt := Suc (nxt h)\<rparr>)"

text \<open>
  \<^verbatim>\<open>
  func (a *Authorizer[T, T2]) AddPolicy(action string, effect Effector[T, T2]) {
      if _, ok := a.Policies[action]; ok {
          panic("a policy already exists for action " + action)
      }
      a.Policies[action] = effect
  }
  \<close>
\<close>

definition AddPolicy ::
  "Authorizer \<Rightarrow> string \<Rightarrow> ('s, 't) Effector \<Rightarrow> ('s, 't) heap \<Rightarrow> (panic + unit) \<times> ('s, 't) heap"
where
  "AddPolicy a action effect h =
     (if comma_ok (Policies a) action h \<noteq> None
      then (Inl (Panic (''a policy already exists for action '' @ action)), h)
      else assign (Policies a) action effect h)"

text \<open>
  \<^verbatim>\<open>
  func (a *Authorizer[T, T2]) Enforce(subject T, action string, resource T2) bool {
      if _, ok := a.Policies[action]; !ok {
          panic("no policies for action " + action)
      }
      fn := a.Policies[action]
      return fn(subject, resource)
  }
  \<close>
\<close>

definition Enforce ::
  "Authorizer \<Rightarrow> 's \<Rightarrow> string \<Rightarrow> 't \<Rightarrow> ('s, 't) heap \<Rightarrow> (panic + bool) \<times> ('s, 't) heap"
where
  "Enforce a subject action resource h =
     (if comma_ok (Policies a) action h = None
      then (Inl (Panic (''no policies for action '' @ action)), h)
      else let fn = index (Policies a) action h in call fn subject resource h)"

subsection \<open>Effectors that write\<close>





subsection \<open>Programs\<close>

text \<open>
  A caller's program is a sequence of operations: constructions, registrations and
  enforcements, on any registries. Go is memory safe, so an operation can only name a
  registry whose map object has been allocated (or the zero value of the struct, whose
  map is nil). A run returns the heap the sequence leaves; it stops (\<open>None\<close>) at the
  first operation that panics, so \<open>Some\<close> is a sequence of successful operations.
\<close>

fun allocated :: "Authorizer \<Rightarrow> ('s, 't) heap \<Rightarrow> bool" where
  "allocated a h = (case Policies a of None \<Rightarrow> True | Some l \<Rightarrow> l < nxt h)"

datatype ('s, 't) operation =
  New
| Register Authorizer string "('s, 't) Effector"
| Check Authorizer 's string 't

fun step :: "('s, 't) operation \<Rightarrow> ('s, 't) heap \<Rightarrow> ('s, 't) heap option" where
  "step New h = Some (snd (NewAuthorizer h))"
| "step (Register a action effect) h =
     (if allocated a h
      then (case AddPolicy a action effect h of (Inl _, _) \<Rightarrow> None | (Inr _, h') \<Rightarrow> Some h')
      else None)"
| "step (Check a subject action resource) h =
     (if allocated a h
      then (case Enforce a subject action resource h of (Inl _, _) \<Rightarrow> None | (Inr _, h') \<Rightarrow> Some h')
      else None)"

fun run :: "('s, 't) operation list \<Rightarrow> ('s, 't) heap \<Rightarrow> ('s, 't) heap option" where
  "run [] h = Some h"
| "run (x # xs) h = (case step x h of None \<Rightarrow> None | Some h' \<Rightarrow> run xs h')"

text \<open>The effectors a program registers for an action of a registry, in order.\<close>

fun registrations :: "Authorizer \<Rightarrow> string \<Rightarrow> ('s, 't) operation list \<Rightarrow> ('s, 't) Effector list" where
  "registrations a k [] = []"
| "registrations a k (Register a' k' e # xs) =
     (if a' = a \<and> k' = k then e # registrations a k xs else registrations a k xs)"
| "registrations a k (New # xs) = registrations a k xs"
| "registrations a k (Check a' s k' t # xs) = registrations a k xs"

text \<open>
  Every address that is not allocated yet holds the empty map: true of the initial heap
  and kept by every operation of a program.
\<close>

definition unallocated_empty :: "('s, 't) heap \<Rightarrow> bool" where
  "unallocated_empty h = (\<forall>l. nxt h \<le> l \<longrightarrow> objs h l = Map.empty)"

subsection \<open>The fixtures of the package's tests\<close>

text \<open>
  \<^verbatim>\<open>type User struct { UserID string; Team string; Roles []string; IsAdmin bool }\<close>
  and the two policies of \<^verbatim>\<open>initializeUserUserAuthorizer\<close> in \<^verbatim>\<open>authorizer_test.go\<close>.
\<close>

record User =
  UserID :: string
  Team :: string
  Roles :: "string list"
  IsAdmin :: bool

definition delete_policy :: "(User, User) Effector" where
  "delete_policy =
     Func (\<lambda>user1 user2.
       if IsAdmin user2 then False
       else if IsAdmin user1 then True
       else False)"

definition update_profile_policy :: "(User, User) Effector" where
  "update_profile_policy =
     Func (\<lambda>user1 user2.
       if IsAdmin user1 then True
       else if UserID user1 = UserID user2 then True
       else if ''ProfileModerator'' \<in> set (Roles user1) then True
       else False)"

definition initializeUserUserAuthorizer :: "Authorizer \<times> (User, User) heap" where
  "initializeUserUserAuthorizer =
     (let (authUserUser, h0) = NewAuthorizer init_heap;
          (_, h1) = AddPolicy authUserUser ''delete'' delete_policy h0;
          (_, h2) = AddPolicy authUserUser ''update:profile'' update_profile_policy h1
      in (authUserUser, h2))"

definition user :: "string \<Rightarrow> bool \<Rightarrow> User" where
  "user uid admin = \<lparr>UserID = uid, Team = [], Roles = [], IsAdmin = admin\<rparr>"

text \<open>
  The same set-up as a program: the registry that the first construction of a program
  builds, and the operations of the test on it.
\<close>

definition authUserUser :: Authorizer where
  "authUserUser = \<lparr>Policies = Some 0\<rparr>"


definition user_user_program :: "(User, User) operation list" where
  "user_user_program =
     [New,
      Register authUserUser ''delete'' delete_policy,
      Register authUserUser ''update:profile'' update_profile_policy,
      Check authUserUser (user ''u1'' True) ''delete'' (user ''u2'' False)]"

text \<open>Two registries over the same types, built one after the other.\<close>

definition initializeTwoAuthorizers :: "(Authorizer \<times> Authorizer) \<times> (User, User) heap" where
  "initializeTwoAuthorizers =
     (let (auth1, h1) = NewAuthorizer init_heap;
          (auth2, h2) = NewAuthorizer h1
      in ((auth1, auth2), h2))"

section \<open>Properties\<close>

subsection \<open>Basic facts about the map expressions\<close>

lemma index_found: "comma_ok m k h = Some v \<Longrightarrow> index m k h = v"
  by (simp add: index_def)

subsection \<open>What each operation does to the heap\<close>

lemma Enforce_heap: "snd (Enforce a subject action resource h) = h"
  by (cases "index (Policies a) action h") (simp_all add: Enforce_def Let_def)

lemma AddPolicy_panics_heap: "AddPolicy a action effect h = (Inl e, h') \<Longrightarrow> h' = h"
  by (cases "Policies a") (auto simp: AddPolicy_def split: if_splits)

lemma AddPolicy_returns:
  "AddPolicy a action effect h = (Inr u, h') \<Longrightarrow>
   \<exists>l. Policies a = Some l \<and> objs h l action = None \<and>
       h' = h\<lparr>objs := (objs h)(l := (objs h l)(action \<mapsto> effect))\<rparr>"
  by (cases "Policies a") (auto simp: AddPolicy_def split: if_splits)

lemma AddPolicy_nxt: "nxt (snd (AddPolicy a action effect h)) = nxt h"
  by (cases "Policies a") (auto simp: AddPolicy_def)

lemma AddPolicy_other:
  "m \<noteq> Policies a \<or> k \<noteq> action \<Longrightarrow>
   comma_ok m k (snd (AddPolicy a action effect h)) = comma_ok m k h"
  by (cases "Policies a"; cases m) (auto simp: AddPolicy_def)

lemma AddPolicy_keeps:
  "comma_ok m k h = Some e \<Longrightarrow> comma_ok m k (snd (AddPolicy a action effect h)) = Some e"
  by (cases "Policies a"; cases m) (auto simp: AddPolicy_def)

lemma NewAuthorizer_fresh: "allocated b h \<Longrightarrow> fst (NewAuthorizer h) \<noteq> b"
  by (auto simp: NewAuthorizer_def)

lemma NewAuthorizer_allocated:
  "allocated (fst (NewAuthorizer h)) (snd (NewAuthorizer h)) \<and>
   (allocated b h \<longrightarrow> allocated b (snd (NewAuthorizer h)))"
  by (auto simp: NewAuthorizer_def split: option.splits)

lemma NewAuthorizer_other:
  "unallocated_empty h \<Longrightarrow> comma_ok m k (snd (NewAuthorizer h)) = comma_ok m k h"
  by (cases m) (auto simp: NewAuthorizer_def unallocated_empty_def)

subsection \<open>Runs of programs\<close>

lemma unallocated_empty_init: "unallocated_empty init_heap"
  by (simp add: unallocated_empty_def init_heap_def)

lemma step_unallocated_empty:
  assumes "unallocated_empty h" and "step x h = Some h'"
  shows "unallocated_empty h'"
proof (cases x)
  case New
  with assms show ?thesis
    by (auto simp: NewAuthorizer_def unallocated_empty_def)
next
  case (Register a action effect)
  with assms obtain u where alloc: "allocated a h" and ret: "AddPolicy a action effect h = (Inr u, h')"
    by (auto split: if_splits prod.splits sum.splits)
  from AddPolicy_returns [OF ret] obtain l where
    "Policies a = Some l" and "h' = h\<lparr>objs := (objs h)(l := (objs h l)(action \<mapsto> effect))\<rparr>"
    by blast
  with alloc assms(1) show ?thesis
    by (auto simp: unallocated_empty_def)
next
  case (Check a subject action resource)
  with assms have "h' = snd (Enforce a subject action resource h)"
    by (auto split: if_splits prod.splits sum.splits)
  with assms(1) show ?thesis
    by (simp add: Enforce_heap)
qed

lemma step_keeps:
  assumes "unallocated_empty h" and "step x h = Some h'" and "comma_ok m k h = Some e"
  shows "comma_ok m k h' = Some e"
proof (cases x)
  case New
  with assms show ?thesis
    by (auto simp: NewAuthorizer_other)
next
  case (Register a action effect)
  with assms have "h' = snd (AddPolicy a action effect h)"
    by (auto split: if_splits prod.splits sum.splits)
  with assms(3) show ?thesis
    by (simp add: AddPolicy_keeps)
next
  case (Check a subject action resource)
  with assms have "h' = snd (Enforce a subject action resource h)"
    by (auto split: if_splits prod.splits sum.splits)
  with assms(3) show ?thesis
    by (simp add: Enforce_heap)
qed


lemma run_keeps:
  "unallocated_empty h \<Longrightarrow> run xs h = Some h' \<Longrightarrow> comma_ok m k h = Some e \<Longrightarrow>
   comma_ok m k h' = Some e"
proof (induction xs arbitrary: h)
  case Nil
  then show ?case by simp
next
  case (Cons x xs)
  from Cons.prems(2) obtain h1 where s: "step x h = Some h1" and r: "run xs h1 = Some h'"
    by (auto split: option.splits)
  from Cons.IH [OF step_unallocated_empty [OF Cons.prems(1) s] r
      step_keeps [OF Cons.prems(1) s Cons.prems(3)]]
  show ?case .
qed

text \<open>Once an action has an effector, no later operation of a run registers it again.\<close>

lemma run_registers_no_more:
  "unallocated_empty h \<Longrightarrow> run xs h = Some h' \<Longrightarrow> comma_ok (Policies a) k h = Some e \<Longrightarrow>
   registrations a k xs = []"
proof (induction xs arbitrary: h)
  case Nil
  then show ?case by simp
next
  case (Cons x xs)
  from Cons.prems(2) obtain h1 where s: "step x h = Some h1" and r: "run xs h1 = Some h'"
    by (auto split: option.splits)
  have rest: "registrations a k xs = []"
    by (rule Cons.IH [OF step_unallocated_empty [OF Cons.prems(1) s] r
          step_keeps [OF Cons.prems(1) s Cons.prems(3)]])
  show ?case
  proof (cases x)
    case New
    with rest show ?thesis by simp
  next
    case (Register a' k' e')
    have "\<not> (a' = a \<and> k' = k)"
    proof
      assume "a' = a \<and> k' = k"
      with Register s Cons.prems(3) show False
        by (auto simp: AddPolicy_def split: if_splits)
    qed
    with Register rest show ?thesis by auto
  next
    case (Check a' s' k' t')
    with rest show ?thesis by simp
  qed
qed

text \<open>
  An action without an effector gets the effector of the run's one registration of it,
  and stays without one when the run has none.
\<close>

lemma run_registrations:
  "unallocated_empty h \<Longrightarrow> run xs h = Some h' \<Longrightarrow> comma_ok (Policies a) k h = None \<Longrightarrow>
   (case registrations a k xs of
      [] \<Rightarrow> comma_ok (Policies a) k h' = None
    | e # es \<Rightarrow> comma_ok (Policies a) k h' = Some e \<and> es = [])"
proof (induction xs arbitrary: h)
  case Nil
  then show ?case by simp
next
  case (Cons x xs)
  from Cons.prems(2) obtain h1 where s: "step x h = Some h1" and r: "run xs h1 = Some h'"
    by (auto split: option.splits)
  note inv1 = step_unallocated_empty [OF Cons.prems(1) s]
  show ?case
  proof (cases "\<exists>e. x = Register a k e")
    case True
    then obtain e where x: "x = Register a k e" by blast
    with s obtain u where ret: "AddPolicy a k e h = (Inr u, h1)"
      by (auto split: if_splits prod.splits sum.splits)
    from AddPolicy_returns [OF ret] have now: "comma_ok (Policies a) k h1 = Some e"
      by auto
    from run_registers_no_more [OF inv1 r now] run_keeps [OF inv1 r now] x
    show ?thesis by simp
  next
    case False
    have same: "comma_ok (Policies a) k h1 = None"
    proof (cases x)
      case New
      with s Cons.prems show ?thesis by (auto simp: NewAuthorizer_other)
    next
      case (Register a' k' e')
      with False have diff: "Policies a \<noteq> Policies a' \<or> k \<noteq> k'" by auto
      from Register s have "h1 = snd (AddPolicy a' k' e' h)"
        by (auto split: if_splits prod.splits sum.splits)
      with AddPolicy_other [OF diff, where effect = e' and h = h] Cons.prems(3)
      show ?thesis by simp
    next
      case (Check a' s' k' t')
      with s have "h1 = snd (Enforce a' s' k' t' h)"
        by (auto split: if_splits prod.splits sum.splits)
      with Cons.prems(3) show ?thesis by (simp add: Enforce_heap)
    qed
    have "registrations a k (x # xs) = registrations a k xs"
      using False by (cases x) auto
    with Cons.IH [OF inv1 r same] show ?thesis by simp
  qed
qed

lemma registrations_member:
  "Register a k e \<in> set xs \<Longrightarrow> e \<in> set (registrations a k xs)"
proof (induction xs)
  case Nil
  then show ?case by simp
next
  case (Cons x xs)
  then show ?case by (cases x) auto
qed

text \<open>An effector that a successful run from the initial heap registers is there at its end.\<close>

lemma run_registered:
  assumes "run xs init_heap = Some h" and "Register a k e \<in> set xs"
  shows "comma_ok (Policies a) k h = Some e"
proof -
  have "comma_ok (Policies a) k (init_heap :: ('a, 'b) heap) = None"
    by (cases "Policies a") (simp_all add: init_heap_def)
  note reg = run_registrations [OF unallocated_empty_init assms(1) this]
  from registrations_member [OF assms(2)] obtain e' es where
    l: "registrations a k xs = e' # es" and m: "e \<in> set (e' # es)"
    by (cases "registrations a k xs") auto
  with reg show ?thesis by auto
qed

subsection \<open>The fixtures\<close>

lemma initializeUserUserAuthorizer_registry: "fst initializeUserUserAuthorizer = authUserUser"
  by (simp add: initializeUserUserAuthorizer_def NewAuthorizer_def AddPolicy_def init_heap_def
      authUserUser_def)

lemma user_user_program_runs:
  "run user_user_program init_heap = Some (snd initializeUserUserAuthorizer)"
  by (simp add: user_user_program_def initializeUserUserAuthorizer_def NewAuthorizer_def
      AddPolicy_def Enforce_def index_def init_heap_def authUserUser_def delete_policy_def)

subsection \<open>The claims\<close>

text \<open>
  C1. For every registry and every action registered with a predicate \<open>p\<close>, \<open>Enforce\<close>
  returns exactly \<open>p subject resource\<close>, for every subject and target, and leaves the
  heap as it was. This holds in every heap where the action has the effector \<open>p\<close>, and
  so at the end of every successful run from the initial heap that registers \<open>p\<close> for
  the action in the registry.
\<close>

theorem Enforce_returns_predicate:
  "(comma_ok (Policies a) action h = Some (Func p) \<longrightarrow>
      Enforce a subject action resource h = (Inr (p subject resource), h)) \<and>
   (run xs init_heap = Some h \<and> Register a action (Func p) \<in> set xs \<longrightarrow>
      Enforce a subject action resource h = (Inr (p subject resource), h))"
proof (intro conjI impI)
  assume "comma_ok (Policies a) action h = Some (Func p)"
  then show "Enforce a subject action resource h = (Inr (p subject resource), h)"
    by (simp add: Enforce_def index_found)
next
  assume "run xs init_heap = Some h \<and> Register a action (Func p) \<in> set xs"
  then have "comma_ok (Policies a) action h = Some (Func p)"
    by (blast intro: run_registered)
  then show "Enforce a subject action resource h = (Inr (p subject resource), h)"
    by (simp add: Enforce_def index_found)
qed

theorem Enforce_returns_predicate_witness:
  "comma_ok (Policies authUserUser) ''delete'' (snd initializeUserUserAuthorizer)
     = Some delete_policy \<and>
   run user_user_program init_heap = Some (snd initializeUserUserAuthorizer) \<and>
   Register authUserUser ''delete'' delete_policy \<in> set user_user_program \<and>
   Enforce authUserUser (user ''u1'' True) ''delete'' (user ''u2'' False)
     (snd initializeUserUserAuthorizer) = (Inr True, snd initializeUserUserAuthorizer) \<and>
   Enforce authUserUser (user ''u1'' False) ''delete'' (user ''u2'' False)
     (snd initializeUserUserAuthorizer) = (Inr False, snd initializeUserUserAuthorizer)"
proof -
  let ?p = "\<lambda>user1 user2. if IsAdmin user2 then False else if IsAdmin user1 then True else False"
  have reg: "comma_ok (Policies authUserUser) ''delete'' (snd initializeUserUserAuthorizer)
      = Some (Func ?p)"
    by (simp add: initializeUserUserAuthorizer_def NewAuthorizer_def AddPolicy_def init_heap_def
        delete_policy_def authUserUser_def)
  have prog: "Register authUserUser ''delete'' (Func ?p) \<in> set user_user_program"
    by (simp add: user_user_program_def delete_policy_def)
  from
    Enforce_returns_predicate [of authUserUser "''delete''" "snd initializeUserUserAuthorizer" ?p
      "user ''u1'' True" "user ''u2'' False" user_user_program]
    Enforce_returns_predicate [of authUserUser "''delete''" "snd initializeUserUserAuthorizer" ?p
      "user ''u1'' False" "user ''u2'' False" user_user_program]
    reg prog user_user_program_runs
  show ?thesis by (simp add: delete_policy_def user_def)
qed

text \<open>
  C2. For every registry and every action that already has an effector, \<open>AddPolicy\<close>
  with that action panics, whatever effector it is given (the one already registered
  included), and leaves the heap as it was. So the second of two calls of \<open>AddPolicy\<close>
  with the same action panics when the first has returned.
\<close>

theorem AddPolicy_duplicate_panics:
  "(comma_ok (Policies a) action h = Some e \<longrightarrow>
      AddPolicy a action effect h =
        (Inl (Panic (''a policy already exists for action '' @ action)), h)) \<and>
   (fst (AddPolicy a action e h) = Inr () \<longrightarrow>
      AddPolicy a action effect (snd (AddPolicy a action e h)) =
        (Inl (Panic (''a policy already exists for action '' @ action)),
         snd (AddPolicy a action e h)))"
proof (intro conjI impI)
  assume "comma_ok (Policies a) action h = Some e"
  then show "AddPolicy a action effect h =
      (Inl (Panic (''a policy already exists for action '' @ action)), h)"
    by (simp add: AddPolicy_def)
next
  assume "fst (AddPolicy a action e h) = Inr ()"
  then have "AddPolicy a action e h = (Inr (), snd (AddPolicy a action e h))"
    by (metis surjective_pairing)
  from AddPolicy_returns [OF this]
  have "comma_ok (Policies a) action (snd (AddPolicy a action e h)) = Some e"
    by auto
  then show "AddPolicy a action effect (snd (AddPolicy a action e h)) =
      (Inl (Panic (''a policy already exists for action '' @ action)), snd (AddPolicy a action e h))"
    by (simp add: AddPolicy_def)
qed

theorem AddPolicy_duplicate_panics_witness:
  "comma_ok (Policies authUserUser) ''delete'' (snd initializeUserUserAuthorizer)
     = Some delete_policy \<and>
   AddPolicy authUserUser ''delete'' delete_policy (snd initializeUserUserAuthorizer)
     = (Inl (Panic ''a policy already exists for action delete''), snd initializeUserUserAuthorizer) \<and>
   fst (AddPolicy authUserUser ''archive'' delete_policy (snd initializeUserUserAuthorizer)) = Inr () \<and>
   fst (AddPolicy authUserUser ''archive'' update_profile_policy
         (snd (AddPolicy authUserUser ''archive'' delete_policy (snd initializeUserUserAuthorizer))))
     = Inl (Panic ''a policy already exists for action archive'')"
proof -
  let ?h = "snd initializeUserUserAuthorizer"
  have reg: "comma_ok (Policies authUserUser) ''delete'' ?h = Some delete_policy"
    by (simp add: initializeUserUserAuthorizer_def NewAuthorizer_def AddPolicy_def init_heap_def
        authUserUser_def)
  have ok: "fst (AddPolicy authUserUser ''archive'' delete_policy ?h) = Inr ()"
    by (simp add: initializeUserUserAuthorizer_def NewAuthorizer_def AddPolicy_def init_heap_def
        authUserUser_def)
  from
    AddPolicy_duplicate_panics [of authUserUser "''delete''" ?h delete_policy delete_policy]
    AddPolicy_duplicate_panics [of authUserUser "''archive''" ?h delete_policy update_profile_policy]
    reg ok
  show ?thesis by simp
qed

text \<open>
  C3. For every registry and every action without an effector in it, \<open>Enforce\<close> panics
  with the message of a missing policy, for every subject and target, and returns no
  decision. An action that a program never registered in a registry has no effector, so
  this holds at the end of every successful run in which the action has no registration.
\<close>

theorem Enforce_missing_policy_panics:
  "(comma_ok (Policies a) action h = None \<longrightarrow>
      Enforce a subject action resource h =
        (Inl (Panic (''no policies for action '' @ action)), h)) \<and>
   (run xs init_heap = Some h \<and> registrations a action xs = [] \<longrightarrow>
      Enforce a subject action resource h =
        (Inl (Panic (''no policies for action '' @ action)), h))"
proof (intro conjI impI)
  assume "comma_ok (Policies a) action h = None"
  then show "Enforce a subject action resource h =
      (Inl (Panic (''no policies for action '' @ action)), h)"
    by (simp add: Enforce_def)
next
  assume "run xs init_heap = Some h \<and> registrations a action xs = []"
  then have r: "run xs init_heap = Some h" and n: "registrations a action xs = []"
    by simp_all
  have "comma_ok (Policies a) action (init_heap :: ('a, 'b) heap) = None"
    by (cases "Policies a") (simp_all add: init_heap_def)
  from run_registrations [OF unallocated_empty_init r this] n
  have "comma_ok (Policies a) action h = None" by simp
  then show "Enforce a subject action resource h =
      (Inl (Panic (''no policies for action '' @ action)), h)"
    by (simp add: Enforce_def)
qed


theorem Enforce_missing_policy_panics_witness:
  "comma_ok (Policies authUserUser) ''archive'' (snd initializeUserUserAuthorizer) = None \<and>
   run user_user_program init_heap = Some (snd initializeUserUserAuthorizer) \<and>
   registrations authUserUser ''archive'' user_user_program = [] \<and>
   Enforce authUserUser (user ''u1'' True) ''archive'' (user ''u2'' False)
     (snd initializeUserUserAuthorizer)
     = (Inl (Panic ''no policies for action archive''), snd initializeUserUserAuthorizer)"
proof -
  have absent: "comma_ok (Policies authUserUser) ''archive'' (snd initializeUserUserAuthorizer) = None"
    by (simp add: initializeUserUserAuthorizer_def NewAuthorizer_def AddPolicy_def init_heap_def
        authUserUser_def)
  have r: "run user_user_program init_heap = Some (snd initializeUserUserAuthorizer)"
    by (rule user_user_program_runs)
  have n: "registrations authUserUser ''archive'' user_user_program = []"
    by (simp add: user_user_program_def)
  from Enforce_missing_policy_panics [of authUserUser "''archive''"
      "snd initializeUserUserAuthorizer" "user ''u1'' True" "user ''u2'' False" user_user_program]
    absent r n
  show ?thesis by simp
qed




text \<open>
  C5. \<open>AddPolicy\<close> touches the binding of its own action only. When it returns, the
  action had no effector before and has the given one now, and every other binding (of
  another action of this registry, or of any action of another registry) is what it was,
  as is the allocation mark. When it panics, the whole heap is what it was.
\<close>

theorem AddPolicy_frame:
  "AddPolicy a action effect h = (r, h') \<Longrightarrow>
   (case r of
      Inr u \<Rightarrow>
        comma_ok (Policies a) action h = None \<and>
        comma_ok (Policies a) action h' = Some effect \<and>
        (\<forall>m k. m \<noteq> Policies a \<or> k \<noteq> action \<longrightarrow> comma_ok m k h' = comma_ok m k h) \<and>
        nxt h' = nxt h
    | Inl e \<Rightarrow> h' = h)"
proof (cases r)
  case (Inl e)
  assume "AddPolicy a action effect h = (r, h')"
  with Inl show ?thesis
    by (simp add: AddPolicy_panics_heap)
next
  case (Inr u)
  assume ret: "AddPolicy a action effect h = (r, h')"
  with Inr AddPolicy_returns obtain l where
    l: "Policies a = Some l" "objs h l action = None"
    "h' = h\<lparr>objs := (objs h)(l := (objs h l)(action \<mapsto> effect))\<rparr>"
    by blast
  have others: "comma_ok m k h' = comma_ok m k h" if "m \<noteq> Policies a \<or> k \<noteq> action" for m k
    using AddPolicy_other [OF that, where effect = effect and h = h] ret by simp
  from l others Inr show ?thesis
    by simp
qed

theorem AddPolicy_frame_witness:
  "(case fst (AddPolicy authUserUser ''archive'' delete_policy (snd initializeUserUserAuthorizer)) of
      Inr u \<Rightarrow>
        comma_ok (Policies authUserUser) ''delete''
          (snd (AddPolicy authUserUser ''archive'' delete_policy (snd initializeUserUserAuthorizer)))
          = Some delete_policy \<and>
        comma_ok (Policies authUserUser) ''archive''
          (snd (AddPolicy authUserUser ''archive'' delete_policy (snd initializeUserUserAuthorizer)))
          = Some delete_policy
    | Inl e \<Rightarrow> False) \<and>
   snd (AddPolicy authUserUser ''delete'' update_profile_policy (snd initializeUserUserAuthorizer))
     = snd initializeUserUserAuthorizer"
proof -
  let ?h = "snd initializeUserUserAuthorizer"
  have old: "comma_ok (Policies authUserUser) ''delete'' ?h = Some delete_policy"
    by (simp add: initializeUserUserAuthorizer_def NewAuthorizer_def AddPolicy_def init_heap_def
        authUserUser_def)
  have ok: "fst (AddPolicy authUserUser ''archive'' delete_policy ?h) = Inr ()"
    by (simp add: initializeUserUserAuthorizer_def NewAuthorizer_def AddPolicy_def init_heap_def
        authUserUser_def)
  have dup: "\<exists>e. fst (AddPolicy authUserUser ''delete'' update_profile_policy ?h) = Inl e"
    by (simp add: initializeUserUserAuthorizer_def NewAuthorizer_def AddPolicy_def init_heap_def
        authUserUser_def)
  from AddPolicy_frame [OF surjective_pairing, of authUserUser "''archive''" delete_policy ?h] ok old
  have first: "comma_ok (Policies authUserUser) ''delete''
        (snd (AddPolicy authUserUser ''archive'' delete_policy ?h)) = Some delete_policy \<and>
      comma_ok (Policies authUserUser) ''archive''
        (snd (AddPolicy authUserUser ''archive'' delete_policy ?h)) = Some delete_policy"
    by simp
  from AddPolicy_frame [OF surjective_pairing, of authUserUser "''delete''" update_profile_policy ?h]
    dup
  have second: "snd (AddPolicy authUserUser ''delete'' update_profile_policy ?h) = ?h"
    by auto
  from first second ok show ?thesis by simp
qed

text \<open>
  C6. \<open>NewAuthorizer\<close> builds an empty registry, on every heap. The registry has a
  map object of its own, the one allocated by the call, and that object is empty: no
  action has an effector in it, and \<open>Enforce\<close> panics with the message of a missing
  policy for every action, subject and target. It is a registry: \<open>AddPolicy\<close> on it
  returns for every action and effector, and the action then has that effector. The
  bindings of every other map object are what they were.
\<close>

theorem NewAuthorizer_empty:
  "Policies (fst (NewAuthorizer h)) = Some (nxt h) \<and>
   nxt (snd (NewAuthorizer h)) = Suc (nxt h) \<and>
   allocated (fst (NewAuthorizer h)) (snd (NewAuthorizer h)) \<and>
   objs (snd (NewAuthorizer h)) (nxt h) = Map.empty \<and>
   comma_ok (Policies (fst (NewAuthorizer h))) action (snd (NewAuthorizer h)) = None \<and>
   Enforce (fst (NewAuthorizer h)) subject action resource (snd (NewAuthorizer h)) =
     (Inl (Panic (''no policies for action '' @ action)), snd (NewAuthorizer h)) \<and>
   fst (AddPolicy (fst (NewAuthorizer h)) action effect (snd (NewAuthorizer h))) = Inr () \<and>
   comma_ok (Policies (fst (NewAuthorizer h))) action
     (snd (AddPolicy (fst (NewAuthorizer h)) action effect (snd (NewAuthorizer h)))) = Some effect \<and>
   (\<forall>m k. m \<noteq> Policies (fst (NewAuthorizer h)) \<longrightarrow>
      comma_ok m k (snd (NewAuthorizer h)) = comma_ok m k h)"
proof -
  have other: "comma_ok m k (snd (NewAuthorizer h)) = comma_ok m k h"
    if "m \<noteq> Policies (fst (NewAuthorizer h))" for m k
    using that by (cases m) (simp_all add: NewAuthorizer_def)
  then show ?thesis
    by (simp add: NewAuthorizer_def Enforce_def AddPolicy_def)
qed

theorem NewAuthorizer_empty_witness:
  "Policies (fst (NewAuthorizer (snd initializeUserUserAuthorizer))) = Some 1 \<and>
   comma_ok (Policies (fst (NewAuthorizer (snd initializeUserUserAuthorizer)))) ''delete''
     (snd (NewAuthorizer (snd initializeUserUserAuthorizer))) = None \<and>
   fst (Enforce (fst (NewAuthorizer (snd initializeUserUserAuthorizer)))
         (user ''u1'' True) ''delete'' (user ''u2'' False)
         (snd (NewAuthorizer (snd initializeUserUserAuthorizer))))
     = Inl (Panic ''no policies for action delete'') \<and>
   fst (AddPolicy (fst (NewAuthorizer (snd initializeUserUserAuthorizer))) ''delete''
         update_profile_policy (snd (NewAuthorizer (snd initializeUserUserAuthorizer)))) = Inr () \<and>
   comma_ok (Policies (fst (NewAuthorizer (snd initializeUserUserAuthorizer)))) ''delete''
     (snd (AddPolicy (fst (NewAuthorizer (snd initializeUserUserAuthorizer))) ''delete''
         update_profile_policy (snd (NewAuthorizer (snd initializeUserUserAuthorizer)))))
     = Some update_profile_policy \<and>
   Policies authUserUser \<noteq> Policies (fst (NewAuthorizer (snd initializeUserUserAuthorizer))) \<and>
   comma_ok (Policies authUserUser) ''delete'' (snd (NewAuthorizer (snd initializeUserUserAuthorizer)))
     = Some delete_policy"
proof -
  let ?h = "snd initializeUserUserAuthorizer"
  have mark: "nxt ?h = 1"
    by (simp add: initializeUserUserAuthorizer_def NewAuthorizer_def AddPolicy_def init_heap_def)
  have old: "comma_ok (Policies authUserUser) ''delete'' ?h = Some delete_policy"
    by (simp add: initializeUserUserAuthorizer_def NewAuthorizer_def AddPolicy_def init_heap_def
        authUserUser_def)
  have diff: "Policies authUserUser \<noteq> Policies (fst (NewAuthorizer ?h))"
    using mark by (simp add: authUserUser_def NewAuthorizer_def)
  from NewAuthorizer_empty [of ?h "''delete''" "user ''u1'' True" "user ''u2'' False"
      update_profile_policy]
  have new: "Policies (fst (NewAuthorizer ?h)) = Some (nxt ?h)"
    and absent: "comma_ok (Policies (fst (NewAuthorizer ?h))) ''delete'' (snd (NewAuthorizer ?h)) = None"
    and missing: "Enforce (fst (NewAuthorizer ?h)) (user ''u1'' True) ''delete'' (user ''u2'' False)
        (snd (NewAuthorizer ?h))
      = (Inl (Panic (''no policies for action '' @ ''delete'')), snd (NewAuthorizer ?h))"
    and ok: "fst (AddPolicy (fst (NewAuthorizer ?h)) ''delete'' update_profile_policy
        (snd (NewAuthorizer ?h))) = Inr ()"
    and there: "comma_ok (Policies (fst (NewAuthorizer ?h))) ''delete''
        (snd (AddPolicy (fst (NewAuthorizer ?h)) ''delete'' update_profile_policy
          (snd (NewAuthorizer ?h)))) = Some update_profile_policy"
    and frame: "\<forall>m k. m \<noteq> Policies (fst (NewAuthorizer ?h)) \<longrightarrow>
        comma_ok m k (snd (NewAuthorizer ?h)) = comma_ok m k ?h"
    by blast+
  from frame diff old
  have kept: "comma_ok (Policies authUserUser) ''delete'' (snd (NewAuthorizer ?h)) = Some delete_policy"
    by simp
  from new mark absent missing ok there diff kept show ?thesis
    by simp
qed




text \<open>
  C8. \<open>Enforce\<close> is deterministic. A second call with the same subject, action and
  target, on the heap the first call leaves, gives the result of the first; and so does
  a call on any heap in which the registry has the same effector for the action (or
  none in both).
\<close>

theorem Enforce_deterministic:
  "fst (Enforce a subject action resource (snd (Enforce a subject action resource h))) =
     fst (Enforce a subject action resource h) \<and>
   (comma_ok (Policies a) action h' = comma_ok (Policies a) action h \<longrightarrow>
      fst (Enforce a subject action resource h') = fst (Enforce a subject action resource h))"
proof (intro conjI impI)
  show "fst (Enforce a subject action resource (snd (Enforce a subject action resource h))) =
     fst (Enforce a subject action resource h)"
    by (simp add: Enforce_heap)
next
  assume same: "comma_ok (Policies a) action h' = comma_ok (Policies a) action h"
  show "fst (Enforce a subject action resource h') = fst (Enforce a subject action resource h)"
  proof (cases "comma_ok (Policies a) action h")
    case None
    with same show ?thesis by (simp add: Enforce_def)
  next
    case (Some fn)
    with same show ?thesis
      by (cases fn) (simp_all add: Enforce_def index_def)
  qed
qed

theorem Enforce_deterministic_witness:
  "comma_ok (Policies authUserUser) ''delete'' (snd (NewAuthorizer (snd initializeUserUserAuthorizer)))
     = comma_ok (Policies authUserUser) ''delete'' (snd initializeUserUserAuthorizer) \<and>
   fst (Enforce authUserUser (user ''u1'' True) ''delete'' (user ''u2'' False)
         (snd (NewAuthorizer (snd initializeUserUserAuthorizer)))) = Inr True \<and>
   fst (Enforce authUserUser (user ''u1'' True) ''delete'' (user ''u2'' False)
         (snd initializeUserUserAuthorizer)) = Inr True"
proof -
  let ?h = "snd initializeUserUserAuthorizer"
  have same: "comma_ok (Policies authUserUser) ''delete'' (snd (NewAuthorizer ?h))
      = comma_ok (Policies authUserUser) ''delete'' ?h"
    by (simp add: initializeUserUserAuthorizer_def NewAuthorizer_def AddPolicy_def init_heap_def
        authUserUser_def)
  have res: "fst (Enforce authUserUser (user ''u1'' True) ''delete'' (user ''u2'' False) ?h) = Inr True"
    by (simp add: initializeUserUserAuthorizer_def NewAuthorizer_def AddPolicy_def Enforce_def
        index_def init_heap_def authUserUser_def delete_policy_def user_def)
  from Enforce_deterministic [of authUserUser "user ''u1'' True" "''delete''" "user ''u2'' False"
      ?h "snd (NewAuthorizer ?h)"] same res
  show ?thesis by simp
qed

text \<open>
  C9. Registries are isolated. A construction gives a registry distinct from every
  registry built before it, since it allocates a map object of its own. For two distinct
  registries \<open>a\<close> and \<open>b\<close> and an action without an effector in \<open>b\<close>, a call of
  \<open>AddPolicy\<close> on \<open>a\<close> with that action leaves every binding of \<open>b\<close> as it was, and
  \<open>Enforce\<close> on \<open>b\<close> with the action still panics with the message of a missing policy.
\<close>

theorem registries_isolated:
  "(allocated b h \<longrightarrow> fst (NewAuthorizer h) \<noteq> b) \<and>
   (a \<noteq> b \<and> comma_ok (Policies b) action h = None \<longrightarrow>
      (\<forall>k. comma_ok (Policies b) k (snd (AddPolicy a action effect h)) = comma_ok (Policies b) k h) \<and>
      Enforce b subject action resource (snd (AddPolicy a action effect h)) =
        (Inl (Panic (''no policies for action '' @ action)), snd (AddPolicy a action effect h)))"
proof (intro conjI impI)
  assume "allocated b h"
  then show "fst (NewAuthorizer h) \<noteq> b"
    by (rule NewAuthorizer_fresh)
next
  assume hyp: "a \<noteq> b \<and> comma_ok (Policies b) action h = None"
  then have diff: "Policies b \<noteq> Policies a \<or> k \<noteq> action" for k
    by (cases a; cases b) auto
  show same: "\<forall>k. comma_ok (Policies b) k (snd (AddPolicy a action effect h)) = comma_ok (Policies b) k h"
    by (simp add: AddPolicy_other [OF diff])
  from same hyp show "Enforce b subject action resource (snd (AddPolicy a action effect h)) =
      (Inl (Panic (''no policies for action '' @ action)), snd (AddPolicy a action effect h))"
    by (simp add: Enforce_def)
qed

theorem registries_isolated_witness:
  "allocated (fst (fst initializeTwoAuthorizers)) (snd (NewAuthorizer (init_heap :: (User, User) heap))) \<and>
   snd (fst initializeTwoAuthorizers)
     = fst (NewAuthorizer (snd (NewAuthorizer (init_heap :: (User, User) heap)))) \<and>
   fst (fst initializeTwoAuthorizers) \<noteq> snd (fst initializeTwoAuthorizers) \<and>
   comma_ok (Policies (snd (fst initializeTwoAuthorizers))) ''delete'' (snd initializeTwoAuthorizers)
     = None \<and>
   fst (AddPolicy (fst (fst initializeTwoAuthorizers)) ''delete'' delete_policy
         (snd initializeTwoAuthorizers)) = Inr () \<and>
   comma_ok (Policies (fst (fst initializeTwoAuthorizers))) ''delete''
     (snd (AddPolicy (fst (fst initializeTwoAuthorizers)) ''delete'' delete_policy
         (snd initializeTwoAuthorizers))) = Some delete_policy \<and>
   fst (Enforce (snd (fst initializeTwoAuthorizers)) (user ''u1'' True) ''delete'' (user ''u2'' False)
         (snd (AddPolicy (fst (fst initializeTwoAuthorizers)) ''delete'' delete_policy
           (snd initializeTwoAuthorizers))))
     = Inl (Panic ''no policies for action delete'')"
proof -
  let ?a = "fst (fst initializeTwoAuthorizers)"
  let ?b = "snd (fst initializeTwoAuthorizers)"
  let ?h = "snd initializeTwoAuthorizers"
  let ?h1 = "snd (NewAuthorizer (init_heap :: (User, User) heap))"
  have built: "allocated ?a ?h1"
    by (simp add: initializeTwoAuthorizers_def NewAuthorizer_def init_heap_def)
  have second: "?b = fst (NewAuthorizer ?h1)"
    by (simp add: initializeTwoAuthorizers_def NewAuthorizer_def init_heap_def)
  from registries_isolated [of ?a ?h1] built second
  have distinct: "?a \<noteq> ?b"
    by auto
  have absent: "comma_ok (Policies ?b) ''delete'' ?h = None"
    by (simp add: initializeTwoAuthorizers_def NewAuthorizer_def init_heap_def)
  have ok: "fst (AddPolicy ?a ''delete'' delete_policy ?h) = Inr ()"
    by (simp add: initializeTwoAuthorizers_def NewAuthorizer_def AddPolicy_def init_heap_def)
  have there: "comma_ok (Policies ?a) ''delete'' (snd (AddPolicy ?a ''delete'' delete_policy ?h))
      = Some delete_policy"
    by (simp add: initializeTwoAuthorizers_def NewAuthorizer_def AddPolicy_def init_heap_def)
  from registries_isolated [of ?b ?h ?a "''delete''" delete_policy
      "user ''u1'' True" "user ''u2'' False"] distinct absent
  have "fst (Enforce ?b (user ''u1'' True) ''delete'' (user ''u2'' False)
         (snd (AddPolicy ?a ''delete'' delete_policy ?h))) = Inl (Panic ''no policies for action delete'')"
    by simp
  with built second distinct absent ok there show ?thesis by simp
qed

text \<open>
  C10. The empty string is an action like any other: on a registry that has a map
  object (every registry that \<open>NewAuthorizer\<close> builds has one) and no effector for the
  empty string, \<open>AddPolicy\<close> with the empty string and a predicate \<open>p\<close> returns, and
  \<open>Enforce\<close> with the empty string then returns \<open>p subject resource\<close>.
\<close>

theorem empty_action_accepted:
  "Policies a \<noteq> None \<Longrightarrow> comma_ok (Policies a) [] h = None \<Longrightarrow>
   fst (AddPolicy a [] (Func p) h) = Inr () \<and>
   Enforce a subject [] resource (snd (AddPolicy a [] (Func p) h)) =
     (Inr (p subject resource), snd (AddPolicy a [] (Func p) h))"
  by (cases "Policies a") (auto simp: AddPolicy_def Enforce_def index_def)

theorem empty_action_accepted_witness:
  "Policies authUserUser \<noteq> None \<and>
   comma_ok (Policies authUserUser) [] (snd initializeUserUserAuthorizer) = None \<and>
   fst (AddPolicy authUserUser [] delete_policy (snd initializeUserUserAuthorizer)) = Inr () \<and>
   fst (Enforce authUserUser (user ''u1'' True) [] (user ''u2'' False)
         (snd (AddPolicy authUserUser [] delete_policy (snd initializeUserUserAuthorizer))))
     = Inr True"
proof -
  let ?h = "snd initializeUserUserAuthorizer"
  have obj: "Policies authUserUser \<noteq> None"
    by (simp add: authUserUser_def)
  have absent: "comma_ok (Policies authUserUser) [] ?h = None"
    by (simp add: initializeUserUserAuthorizer_def NewAuthorizer_def AddPolicy_def init_heap_def
        authUserUser_def)
  from empty_action_accepted [OF obj absent,
      of "\<lambda>user1 user2. if IsAdmin user2 then False else if IsAdmin user1 then True else False"
         "user ''u1'' True" "user ''u2'' False"]
    obj absent
  show ?thesis by (simp add: delete_policy_def user_def)
qed

end
